theory Spec2Isabelle
  imports Complex_Main "HOL-Library.Sublist"
begin


section \<open>JavaScript values used by the component\<close>

text \<open>
  A JavaScript \<open>number\<close> is modelled as a real or the value \<open>NaN\<close>; the infinities
  are not represented. \<open>truthy\<close> is the conversion to a boolean that
  \<open>filter(i => i.depth)\<close> applies: \<open>0\<close> and \<open>NaN\<close> are false, everything else
  (negative numbers included) is true.
\<close>

datatype jsnum = Num real | NaN

fun truthy :: "jsnum \<Rightarrow> bool" where
  "truthy (Num x) = (x \<noteq> 0)"
| "truthy NaN = False"

text \<open>The comparisons \<open>d > 0\<close> and \<open>d < 0\<close>; both are false on \<open>NaN\<close>.\<close>

fun positive :: "jsnum \<Rightarrow> bool" where
  "positive (Num x) = (0 < x)"
| "positive NaN = False"

fun negative :: "jsnum \<Rightarrow> bool" where
  "negative (Num x) = (x < 0)"
| "negative NaN = False"

text \<open>
  \<open>xs[i]\<close>: reading an array outside its bounds raises nothing and gives
  \<open>undefined\<close>, here \<open>None\<close>.
\<close>

definition at_index :: "'a list \<Rightarrow> int \<Rightarrow> 'a option" where
  "at_index xs i = (if 0 \<le> i \<and> i < int (length xs) then Some (xs ! nat i) else None)"

text \<open>
  \<open>Array.prototype.findIndex\<close>: the index of the first element that satisfies the
  predicate, \<open>-1\<close> when there is none.
\<close>

fun findIndexFrom :: "('a \<Rightarrow> bool) \<Rightarrow> 'a list \<Rightarrow> int \<Rightarrow> int" where
  "findIndexFrom P [] k = - 1"
| "findIndexFrom P (x # xs) k = (if P x then k else findIndexFrom P xs (k + 1))"

definition findIndex :: "('a \<Rightarrow> bool) \<Rightarrow> 'a list \<Rightarrow> int" where
  "findIndex P xs = findIndexFrom P xs 0"


section \<open>Component state of \<open>SvgTo3D.vue\<close>\<close>

text \<open>
  Shapes are objects: the arrays hold references and \<open>===\<close> compares references, so
  the model keeps an object store (\<open>heap\<close>) and lists of references into it.
\<close>

type_synonym ref = nat

record shape =
  color :: nat
  depth :: jsnum
  startZ :: jsnum

record state =
  heap :: "ref \<Rightarrow> shape"
  svgShapes :: "ref list"
  selectedShapeIndex :: "int option"
  editingInputIndex :: "int option"
  isExporting :: bool
  isDefaultSvg :: bool
  fileName :: string
  svgCode :: string
  size :: real

definition defaultDepth :: real where
  "defaultDepth = 2"

definition defaultSize :: real where
  "defaultSize = 37"

text \<open>\<open>shownShapes = computed(() => svgShapes.value.filter(i => i.depth))\<close>\<close>

definition shownShapes :: "state \<Rightarrow> ref list" where
  "shownShapes st = filter (\<lambda>i. truthy (depth (heap st i))) (svgShapes st)"

definition toShownIndex :: "state \<Rightarrow> int \<Rightarrow> int" where
  "toShownIndex st index =
     findIndex (\<lambda>s. Some s = at_index (svgShapes st) index) (shownShapes st)"

definition toSvgIndex :: "state \<Rightarrow> int \<Rightarrow> int" where
  "toSvgIndex st index =
     findIndex (\<lambda>s. Some s = at_index (shownShapes st) index) (svgShapes st)"

definition formatSelectedShapeIndex :: "state \<Rightarrow> int option \<Rightarrow> int option" where
  "formatSelectedShapeIndex st index =
     (case index of
        None \<Rightarrow> None
      | Some i \<Rightarrow>
          (let newIndex = toShownIndex st i
           in if newIndex = - 1 then None else Some newIndex))"

text \<open>The getter and the setter of the computed \<open>selectedShownShapeIndex\<close>.\<close>

definition selectedShownShapeIndex_get :: "state \<Rightarrow> int option" where
  "selectedShownShapeIndex_get st =
     (if isExporting st then None
      else if editingInputIndex st \<noteq> None
        then formatSelectedShapeIndex st (editingInputIndex st)
      else formatSelectedShapeIndex st (selectedShapeIndex st))"

definition selectedShownShapeIndex_set :: "state \<Rightarrow> int \<Rightarrow> state" where
  "selectedShownShapeIndex_set st index =
     (if isDefaultSvg st \<or> isExporting st then st
      else st\<lparr>selectedShapeIndex := Some (toSvgIndex st index)\<rparr>)"

text \<open>
  \<open>handleMeshClick\<close> writes no state. Its result here is the row whose input it asks
  to take the focus, if any; \<open>inputRefs\<close> tells for each row whether an input component
  is registered (\<open>True\<close>) or the entry is \<open>null\<close>.
\<close>

definition handleMeshClick :: "state \<Rightarrow> bool list \<Rightarrow> int \<Rightarrow> int option" where
  "handleMeshClick st inputRefs index =
     (if isDefaultSvg st \<or> isExporting st then None
      else
        (let svgIndex = toSvgIndex st index
         in case at_index inputRefs svgIndex of
              Some True \<Rightarrow> Some svgIndex
            | _ \<Rightarrow> None))"


section \<open>Loading and closing a document\<close>

text \<open>
  \<open>createShapesWithColor\<close> (the composable \<open>useSvgLoader\<close>) is a parameter of the
  model: from the document text, the default depth and start offset, the optional
  \<open>customShapes\<close> callback and the current object store it gives the store with the
  new shape objects and the list of their references.
\<close>

type_synonym customShapes = "(ref \<Rightarrow> shape) \<times> ref list \<Rightarrow> (ref \<Rightarrow> shape) \<times> ref list"

type_synonym loader =
  "string \<Rightarrow> real \<Rightarrow> real \<Rightarrow> customShapes option \<Rightarrow> (ref \<Rightarrow> shape)
     \<Rightarrow> (ref \<Rightarrow> shape) \<times> ref list"

text \<open>
  \<open>mountSVG\<close> is the synchronous body of the function; \<open>mountSVG_nextTick\<close> is the
  callback it hands to \<open>nextTick\<close>, which runs after the next two ticks.
\<close>

definition mountSVG :: "loader \<Rightarrow> state \<Rightarrow> string \<Rightarrow> customShapes option \<Rightarrow> state" where
  "mountSVG createShapesWithColor st svgData customShapes =
     (let (h, shapes) = createShapesWithColor svgData defaultDepth 0 customShapes (heap st)
      in st\<lparr>isDefaultSvg := False, heap := h, svgShapes := shapes\<rparr>)"

definition mountSVG_nextTick :: "state \<Rightarrow> state" where
  "mountSVG_nextTick st = st\<lparr>size := defaultSize\<rparr>"

text \<open>
  \<open>handleClose\<close>, up to its last call: \<open>loadDefaultSvg\<close> starts a fetch and changes
  no state before the fetch completes.
\<close>

definition handleClose :: "state \<Rightarrow> state" where
  "handleClose st =
     st\<lparr>fileName := [], svgShapes := [], svgCode := [],
        selectedShapeIndex := None, editingInputIndex := None,
        isExporting := False, size := defaultSize\<rparr>"


section \<open>Editing depth and start offset\<close>

text \<open>
  Modelled from the spec: \<open>IconInput.vue\<close>, the number input that receives \<open>min\<close>,
  \<open>max\<close> and \<open>step\<close> and emits the value that \<open>v-model\<close> stores, is not among the
  sources. The spec says that the value is clamped to the range; \<open>clampToRange\<close> is
  that clamp.
\<close>

definition clampToRange :: "real \<Rightarrow> real \<Rightarrow> real \<Rightarrow> real" where
  "clampToRange lo hi x = max lo (min hi x)"

text \<open>
  Modelled from the spec: the step granularity. \<open>onStep step x\<close> says that \<open>x\<close> lies on
  the grid of the step, that is, \<open>x\<close> is a whole multiple of it. \<open>snapToStep\<close> brings a
  value to the grid. The spec does not say which way a value between two grid points
  goes; the nearest grid point is taken.
\<close>

definition onStep :: "real \<Rightarrow> real \<Rightarrow> bool" where
  "onStep step x = (of_int \<lfloor>x / step\<rfloor> = x / step)"

definition snapToStep :: "real \<Rightarrow> real \<Rightarrow> real" where
  "snapToStep step x = of_int (round (x / step)) * step"

text \<open>
  Modelled from the spec: \<open>setDepth\<close> and \<open>setStartZ\<close>, which clamp to \<open>[0, 10]\<close> and to
  \<open>[-10, 10]\<close> at the step granularity \<open>0.1\<close>. In the source they are the bindings
  \<open>v-model:value="item.depth"\<close> (with \<open>:min="0" :max="10" :step="0.1"\<close>) and
  \<open>v-model:value="item.startZ"\<close> (with \<open>:min="-10" :max="10" :step="0.1"\<close>) of the two
  inputs of row \<open>fullIndex\<close>: the value that the input emits is stored in the shape
  object of that row. A row exists only for an index inside the list.
\<close>

definition setDepth :: "state \<Rightarrow> int \<Rightarrow> real \<Rightarrow> state" where
  "setDepth st fullIndex x =
     (case at_index (svgShapes st) fullIndex of
        None \<Rightarrow> st
      | Some r \<Rightarrow>
          st\<lparr>heap := (heap st)
            (r := (heap st r)\<lparr>depth := Num (clampToRange 0 10 (snapToStep (1 / 10) x))\<rparr>)\<rparr>)"

definition setStartZ :: "state \<Rightarrow> int \<Rightarrow> real \<Rightarrow> state" where
  "setStartZ st fullIndex x =
     (case at_index (svgShapes st) fullIndex of
        None \<Rightarrow> st
      | Some r \<Rightarrow>
          st\<lparr>heap := (heap st)
            (r := (heap st r)\<lparr>startZ := Num (clampToRange (- 10) 10 (snapToStep (1 / 10) x))\<rparr>)\<rparr>)"


section \<open>Subtracting the bore (\<open>useCsg.ts\<close>)\<close>

text \<open>
  The geometry handed in is opaque (\<open>'g\<close>); the cylinder is the library's
  \<open>CylinderGeometry(radiusTop, radiusBottom, height, radialSegments)\<close>. A \<open>Brush\<close> is a
  mesh: it is constructed at the origin of its parent, and its world matrix is current
  only after \<open>updateMatrixWorld\<close>. The evaluator of \<open>three-bvh-csg\<close> is a parameter;
  \<open>operation\<close> lists operations it can be asked for.
\<close>

datatype 'g geometry = BufferGeometry 'g | CylinderGeometry real real real nat

datatype operation = ADDITION | SUBTRACTION | REVERSE_SUBTRACTION | INTERSECTION | DIFFERENCE

record 'g brush =
  geometry :: "'g geometry"
  position :: "real \<times> real \<times> real"
  matrixWorldUpdated :: bool

definition Brush :: "'g geometry \<Rightarrow> 'g brush" where
  "Brush g = \<lparr>geometry = g, position = (0, 0, 0), matrixWorldUpdated = False\<rparr>"

definition updateMatrixWorld :: "'g brush \<Rightarrow> 'g brush" where
  "updateMatrixWorld b = b\<lparr>matrixWorldUpdated := True\<rparr>"

definition subtractCylinder ::
  "('g brush \<Rightarrow> 'g brush \<Rightarrow> operation \<Rightarrow> 'mesh) \<Rightarrow> 'g \<Rightarrow> 'mesh" where
  "subtractCylinder evaluate g =
     (let originalBrush = updateMatrixWorld (Brush (BufferGeometry g));
          cylinderRadius = 5 / 2;
          cylinderHeight = 100;
          cylinderGeometry = CylinderGeometry cylinderRadius cylinderRadius cylinderHeight 32;
          cylinderBrush = updateMatrixWorld (Brush cylinderGeometry);
          result = evaluate originalBrush cylinderBrush SUBTRACTION
      in result)"


section \<open>Strings\<close>

text \<open>
  Texts are lists of ASCII characters. \<open>isWhiteSpace\<close> is the ASCII part of what
  \<open>String.prototype.trim\<close> strips, \<open>lowerChar\<close> the ASCII part of \<open>toLowerCase\<close>.
\<close>

definition isWhiteSpace :: "char \<Rightarrow> bool" where
  "isWhiteSpace c = (c \<in> set [CHR 0x09, CHR 0x0A, CHR 0x0B, CHR 0x0C, CHR 0x0D, CHR '' ''])"

definition trim :: "string \<Rightarrow> string" where
  "trim s = rev (dropWhile isWhiteSpace (rev (dropWhile isWhiteSpace s)))"

definition lowerChar :: "char \<Rightarrow> char" where
  "lowerChar c =
     (case map_of (zip ''ABCDEFGHIJKLMNOPQRSTUVWXYZ'' ''abcdefghijklmnopqrstuvwxyz'') c of
        Some l \<Rightarrow> l
      | None \<Rightarrow> c)"

definition toLowerCase :: "string \<Rightarrow> string" where
  "toLowerCase s = map lowerChar s"

text \<open>
  \<open>s.indexOf(needle)\<close>: the position of the first occurrence, \<open>-1\<close> when there is
  none; \<open>s.includes(needle)\<close>: whether there is an occurrence.
\<close>

fun indexOfFrom :: "string \<Rightarrow> string \<Rightarrow> int \<Rightarrow> int" where
  "indexOfFrom needle [] k = (if needle = [] then k else - 1)"
| "indexOfFrom needle (c # cs) k =
     (if prefix needle (c # cs) then k else indexOfFrom needle cs (k + 1))"

definition indexOf :: "string \<Rightarrow> string \<Rightarrow> int" where
  "indexOf s needle = indexOfFrom needle s 0"

fun str_includes :: "string \<Rightarrow> string \<Rightarrow> bool" where
  "str_includes [] needle = (needle = [])"
| "str_includes (c # cs) needle = (prefix needle (c # cs) \<or> str_includes cs needle)"


section \<open>Accepting pasted text (\<open>isValidSvg\<close>)\<close>

definition isValidSvg :: "string \<Rightarrow> bool" where
  "isValidSvg code =
     (if code = [] \<or> trim code = [] then False
      else
        (let lowerCode = toLowerCase code;
             svgStart = indexOf lowerCode ''<svg'';
             svgEnd = indexOf lowerCode ''</svg>''
         in svgStart \<noteq> - 1 \<and> svgEnd \<noteq> - 1 \<and> svgStart < svgEnd
            \<and> (str_includes lowerCode ''viewbox'' \<or> str_includes lowerCode ''width''
                \<or> str_includes lowerCode ''height'')))"

text \<open>
  The words of the specification, to compare \<open>isValidSvg\<close> with: a text is blank when
  it is empty or has only white space; a tag occurs at a position; the tag that is
  located is its first occurrence.
\<close>

definition blank :: "string \<Rightarrow> bool" where
  "blank s = (\<forall>c \<in> set s. isWhiteSpace c)"

definition occursAt :: "string \<Rightarrow> string \<Rightarrow> nat \<Rightarrow> bool" where
  "occursAt needle s i = (i \<le> length s \<and> prefix needle (drop i s))"

definition firstAt :: "string \<Rightarrow> string \<Rightarrow> nat \<Rightarrow> bool" where
  "firstAt needle s i = (occursAt needle s i \<and> (\<forall>k \<in> set [0..<i]. \<not> occursAt needle s k))"


section \<open>Tracing a bitmap (\<open>convertBitmapToSvg\<close>)\<close>

text \<open>
  A non-negative integer in a template literal is written in decimal (image sizes are
  far below the size at which JavaScript changes to exponent notation).
\<close>

fun numberToString :: "nat \<Rightarrow> string" where
  "numberToString n =
     (if n < 10 then [''0123456789'' ! n]
      else numberToString (n div 10) @ [''0123456789'' ! (n mod 10)])"

text \<open>The number that a decimal numeral denotes, to read \<open>numberToString\<close> back.\<close>

definition digitValue :: "char \<Rightarrow> nat" where
  "digitValue c = (case map_of (zip ''0123456789'' [0..<10]) c of Some d \<Rightarrow> d | None \<Rightarrow> 0)"

definition decimalValue :: "string \<Rightarrow> nat" where
  "decimalValue s = foldl (\<lambda>a c. 10 * a + digitValue c) 0 s"

text \<open>
  \<open>svg.match(/<svg[^>]*>([\s\S]*)<\/svg>/)\<close>, the text of its group.
  \<open>captureBeforeLast\<close> is the greedy \<open>([\s\S]*)\<close> followed by the closing tag: the
  longest prefix after which the tag stands. \<open>matchHere\<close> is the match attempted at the
  start of a text: \<open><svg\<close>, then \<open>[^>]*\<close>, which can only end at the first \<open>>\<close>, then
  the group. \<open>matchSvgContent\<close> takes the leftmost start at which the match succeeds.
\<close>

fun captureBeforeLast :: "string \<Rightarrow> string \<Rightarrow> string option" where
  "captureBeforeLast tag [] = (if tag = [] then Some [] else None)"
| "captureBeforeLast tag (c # cs) =
     (case captureBeforeLast tag cs of
        Some rest \<Rightarrow> Some (c # rest)
      | None \<Rightarrow> if prefix tag (c # cs) then Some [] else None)"

definition matchHere :: "string \<Rightarrow> string option" where
  "matchHere s =
     (if prefix ''<svg'' s then
        (case dropWhile (\<lambda>c. c \<noteq> CHR ''>'') (drop 4 s) of
           [] \<Rightarrow> None
         | c # rest \<Rightarrow> captureBeforeLast ''</svg>'' rest)
      else None)"

fun matchSvgContent :: "string \<Rightarrow> string option" where
  "matchSvgContent [] = None"
| "matchSvgContent (c # cs) =
     (case matchHere (c # cs) of
        Some content \<Rightarrow> Some content
      | None \<Rightarrow> matchSvgContent cs)"

text \<open>
  The body of the tracer's callback. The pixel size of the image (from
  \<open>getImageWidthHeight\<close>) and the document that \<open>potrace.trace\<close> hands to the callback
  are parameters.
\<close>

definition convertBitmapToSvg :: "nat \<Rightarrow> nat \<Rightarrow> string \<Rightarrow> string" where
  \<open>convertBitmapToSvg imageWidth imageHeight svg =
     (let padding = 8;
          cornerRadius = 8;
          svgWidth = imageWidth + padding * 2;
          svgHeight = imageHeight + padding * 2;
          contentMatch = matchSvgContent svg;
          content = (case contentMatch of Some c \<Rightarrow> c | None \<Rightarrow> []);
          svgWithBg =
            ''<svg width="'' @ numberToString svgWidth
            @ ''" height="'' @ numberToString svgHeight
            @ ''" viewBox="0 0 '' @ numberToString svgWidth
            @ '' '' @ numberToString svgHeight @ ''">\<newline>''
            @ ''  <rect x="0" y="0" width="'' @ numberToString svgWidth
            @ ''" height="'' @ numberToString svgHeight
            @ ''" rx="'' @ numberToString cornerRadius
            @ ''" ry="'' @ numberToString cornerRadius @ ''" fill="white"/>\<newline>''
            @ ''  <g transform="translate('' @ numberToString padding
            @ '','' @ numberToString padding @ '')">\<newline>''
            @ ''    '' @ content @ ''\<newline>''
            @ ''  </g>\<newline>''
            @ ''</svg>''
      in svgWithBg)\<close>


section \<open>Example inputs\<close>

text \<open>
  A small document used to run the definitions: three shape objects, the middle one
  with depth \<open>0\<close> and therefore hidden; the third row of the list is hovered.
\<close>

definition demoHeap :: "ref \<Rightarrow> shape" where
  "demoHeap r = \<lparr>color = 0, depth = (if r = 11 then Num 0 else Num 2), startZ = Num 0\<rparr>"

definition demoState :: state where
  "demoState = \<lparr>heap = demoHeap, svgShapes = [10, 11, 12],
     selectedShapeIndex = Some 2, editingInputIndex = None,
     isExporting = False, isDefaultSvg = False,
     fileName = ''a.svg'', svgCode = [], size = 37\<rparr>"

text \<open>
  A state in which an input is being edited and an export runs, and a loader that
  creates one shape object.
\<close>

definition busyState :: state where
  "busyState = \<lparr>heap = (\<lambda>r. \<lparr>color = 0, depth = Num 2, startZ = Num 0\<rparr>),
     svgShapes = [10, 11, 12], selectedShapeIndex = Some 2, editingInputIndex = Some 0,
     isExporting = True, isDefaultSvg = False,
     fileName = ''a.svg'', svgCode = [], size = 80\<rparr>"

definition oneShapeLoader :: loader where
  "oneShapeLoader svgData d z customShapes h =
     (h(20 := \<lparr>color = 0, depth = Num d, startZ = Num z\<rparr>), [20])"

text \<open>An evaluator that only records what it was called with.\<close>

definition recordCall :: "'g brush \<Rightarrow> 'g brush \<Rightarrow> operation \<Rightarrow> 'g brush \<times> 'g brush \<times> operation" where
  "recordCall a b op = (a, b, op)"


section \<open>Facts about \<open>findIndex\<close>\<close>

lemma findIndexFrom_none:
  "(findIndexFrom P xs k = - 1 \<and> 0 \<le> k) \<longleftrightarrow> (0 \<le> k \<and> (\<forall>x \<in> set xs. \<not> P x))"
proof (induction xs arbitrary: k)
  case Nil
  show ?case by simp
next
  case (Cons x xs)
  from Cons.IH [of "k + 1"] show ?case by auto
qed

lemma findIndexFrom_found:
  assumes "\<exists>x \<in> set xs. P x"
  shows "\<exists>n < length xs. findIndexFrom P xs k = k + int n \<and> P (xs ! n)
           \<and> (\<forall>m < n. \<not> P (xs ! m))"
  using assms
proof (induction xs arbitrary: k)
  case Nil
  then show ?case by simp
next
  case (Cons x xs)
  show ?case
  proof (cases "P x")
    case True
    then have "findIndexFrom P (x # xs) k = k + int 0 \<and> P ((x # xs) ! 0)
        \<and> (\<forall>m < 0. \<not> P ((x # xs) ! m))"
      by simp
    then show ?thesis by blast
  next
    case False
    with Cons.prems have "\<exists>y \<in> set xs. P y" by auto
    from Cons.IH [OF this, of "k + 1"] obtain n where
      n: "n < length xs" "findIndexFrom P xs (k + 1) = k + 1 + int n" "P (xs ! n)"
         "\<forall>m < n. \<not> P (xs ! m)"
      by blast
    have "\<forall>m < Suc n. \<not> P ((x # xs) ! m)"
      using False n(4) by (auto simp: nth_Cons split: nat.splits)
    with n False have "Suc n < length (x # xs)
        \<and> findIndexFrom P (x # xs) k = k + int (Suc n) \<and> P ((x # xs) ! Suc n)
        \<and> (\<forall>m < Suc n. \<not> P ((x # xs) ! m))"
      by simp
    then show ?thesis by blast
  qed
qed

lemma findIndex_none: "findIndex P xs = - 1 \<longleftrightarrow> (\<forall>x \<in> set xs. \<not> P x)"
  using findIndexFrom_none [of P xs 0] by (simp add: findIndex_def)

lemma findIndex_found:
  assumes "\<exists>x \<in> set xs. P x"
  shows "\<exists>n < length xs. findIndex P xs = int n \<and> P (xs ! n) \<and> (\<forall>m < n. \<not> P (xs ! m))"
  using findIndexFrom_found [OF assms, of 0] by (simp add: findIndex_def)

lemma findIndex_range: "findIndex P xs = - 1 \<or> (0 \<le> findIndex P xs \<and> findIndex P xs < int (length xs))"
proof (cases "\<exists>x \<in> set xs. P x")
  case True
  from findIndex_found [OF this] show ?thesis by auto
next
  case False
  then show ?thesis by (simp add: findIndex_none)
qed

lemma findIndex_distinct:
  assumes "distinct xs" and "i < length xs"
  shows "findIndex (\<lambda>s. s = xs ! i) xs = int i"
proof -
  have "\<exists>x \<in> set xs. x = xs ! i"
    using assms(2) by simp
  from findIndex_found [OF this] obtain n where
    n: "n < length xs" "findIndex (\<lambda>s. s = xs ! i) xs = int n" "xs ! n = xs ! i"
    by blast
  from assms n(1,3) have "n = i"
    by (simp add: nth_eq_iff_index_eq)
  with n(2) show ?thesis by simp
qed

lemma findIndex_member:
  assumes "x \<in> set xs"
  shows "\<exists>n < length xs. findIndex (\<lambda>s. s = x) xs = int n \<and> xs ! n = x"
proof -
  from assms have "\<exists>y \<in> set xs. y = x" by simp
  from findIndex_found [OF this] show ?thesis by blast
qed

lemma at_index_nat: "n < length xs \<Longrightarrow> at_index xs (int n) = Some (xs ! n)"
  by (simp add: at_index_def)

lemma at_index_Some: "at_index xs i = Some x \<Longrightarrow> \<exists>n < length xs. i = int n \<and> xs ! n = x"
  by (auto simp: at_index_def split: if_splits intro!: exI [of _ "nat i"])

lemma distinct_shownShapes: "distinct (svgShapes st) \<Longrightarrow> distinct (shownShapes st)"
  by (simp add: shownShapes_def)


lemma truthy_positive: "positive d \<Longrightarrow> truthy d"
  by (cases d) auto

lemma truthy_iff_positive: "\<not> negative d \<Longrightarrow> truthy d = positive d"
  by (cases d) auto


section \<open>The example document\<close>

lemma demo_fields:
  "heap demoState = demoHeap" "svgShapes demoState = [10, 11, 12]"
  "selectedShapeIndex demoState = Some 2" "editingInputIndex demoState = None"
  "isExporting demoState = False" "isDefaultSvg demoState = False"
  by (simp_all add: demoState_def)

lemma demo_shownShapes: "shownShapes demoState = [10, 12]"
  by (simp add: shownShapes_def demo_fields demoHeap_def)

lemma demo_toShownIndex:
  "toShownIndex demoState 0 = 0" "toShownIndex demoState 1 = - 1"
  "toShownIndex demoState 2 = 1" "toShownIndex demoState (- 1) = - 1"
  "toShownIndex demoState 3 = - 1"
  by (simp_all add: toShownIndex_def demo_shownShapes findIndex_def at_index_def demo_fields)

lemma demo_toSvgIndex:
  "toSvgIndex demoState 0 = 0" "toSvgIndex demoState 1 = 2" "toSvgIndex demoState 2 = - 1"
  by (simp_all add: toSvgIndex_def demo_shownShapes findIndex_def at_index_def demo_fields)


section \<open>The selection read\<close>

text \<open>
  C4. The getter of \<open>selectedShownShapeIndex\<close> reports no selection while an export
  runs, whatever the hovered and the editing index are; otherwise an editing index,
  when set, decides the result (its position among the shown shapes), and the hovered
  index is used only when no editing index is set.
\<close>

theorem selection_read_priority:
  "(isExporting st \<longrightarrow> selectedShownShapeIndex_get st = None)
   \<and> (\<not> isExporting st \<and> editingInputIndex st = Some e \<longrightarrow>
        selectedShownShapeIndex_get st = formatSelectedShapeIndex st (Some e))
   \<and> (\<not> isExporting st \<and> editingInputIndex st = None \<longrightarrow>
        selectedShownShapeIndex_get st = formatSelectedShapeIndex st (selectedShapeIndex st))"
  by (simp add: selectedShownShapeIndex_get_def)

theorem selection_read_priority_witness:
  "\<not> isExporting demoState \<and> editingInputIndex demoState = None
   \<and> selectedShownShapeIndex_get demoState = Some 1
   \<and> selectedShownShapeIndex_get (demoState\<lparr>editingInputIndex := Some 0\<rparr>) = Some 0
   \<and> selectedShownShapeIndex_get (demoState\<lparr>isExporting := True\<rparr>) = None"
proof -
  let ?ed = "demoState\<lparr>editingInputIndex := Some 0\<rparr>"
  have ed: "toShownIndex ?ed 0 = 0"
    by (simp add: toShownIndex_def shownShapes_def findIndex_def at_index_def
        demo_fields demoHeap_def)
  have "selectedShownShapeIndex_get demoState = Some 1"
    using selection_read_priority [of demoState]
    by (simp add: formatSelectedShapeIndex_def demo_toShownIndex demo_fields)
  moreover have "selectedShownShapeIndex_get ?ed = Some 0"
    using selection_read_priority [of ?ed 0] ed
    by (simp add: formatSelectedShapeIndex_def demo_fields)
  moreover have "selectedShownShapeIndex_get (demoState\<lparr>isExporting := True\<rparr>) = None"
    using selection_read_priority [of "demoState\<lparr>isExporting := True\<rparr>"] by simp
  ultimately show ?thesis
    by (simp add: demo_fields)
qed

text \<open>
  C10. The selection read is total. Whatever the hovered and the editing index hold
  (the \<open>-1\<close> that a selection write stores when \<open>toSvgIndex\<close> finds nothing, a
  negative index, an index past the end of the list), the getter returns either no
  selection or an index into the shown shapes; it never returns \<open>-1\<close>. An index
  outside the list is mapped to no selection. Reading an array out of range gives
  \<open>undefined\<close> in the source, so there is no error branch to model.
\<close>

theorem selection_read_total:
  "(selectedShownShapeIndex_get st = None
      \<or> (\<exists>v. selectedShownShapeIndex_get st = Some v \<and> 0 \<le> v
            \<and> v < int (length (shownShapes st))))
   \<and> selectedShownShapeIndex_get st \<noteq> Some (- 1)
   \<and> (index < 0 \<or> int (length (svgShapes st)) \<le> index \<longrightarrow>
        formatSelectedShapeIndex st (Some index) = None)"
proof -
  have fmt: "formatSelectedShapeIndex st i = None
      \<or> (\<exists>v. formatSelectedShapeIndex st i = Some v \<and> 0 \<le> v
            \<and> v < int (length (shownShapes st)))" for i
  proof (cases i)
    case None
    then show ?thesis by (simp add: formatSelectedShapeIndex_def)
  next
    case (Some k)
    from findIndex_range [of "\<lambda>s. Some s = at_index (svgShapes st) k" "shownShapes st"]
    show ?thesis
      by (auto simp: Some formatSelectedShapeIndex_def toShownIndex_def Let_def)
  qed
  have get: "selectedShownShapeIndex_get st = None
      \<or> (\<exists>v. selectedShownShapeIndex_get st = Some v \<and> 0 \<le> v
            \<and> v < int (length (shownShapes st)))"
    using fmt [of "editingInputIndex st"] fmt [of "selectedShapeIndex st"]
    by (auto simp: selectedShownShapeIndex_get_def)
  then have "selectedShownShapeIndex_get st \<noteq> Some (- 1)"
    by auto
  moreover have "formatSelectedShapeIndex st (Some index) = None"
    if "index < 0 \<or> int (length (svgShapes st)) \<le> index"
  proof -
    from that have "at_index (svgShapes st) index = None"
      by (auto simp: at_index_def)
    then have "toShownIndex st index = - 1"
      by (simp add: toShownIndex_def findIndex_none)
    then show ?thesis
      by (simp add: formatSelectedShapeIndex_def)
  qed
  ultimately show ?thesis
    using get by blast
qed

theorem selection_read_total_witness:
  "selectedShownShapeIndex_get (demoState\<lparr>selectedShapeIndex := Some (- 1)\<rparr>) = None
   \<and> selectedShownShapeIndex_get (demoState\<lparr>editingInputIndex := Some 7\<rparr>) = None
   \<and> formatSelectedShapeIndex demoState (Some (- 1)) = None
   \<and> formatSelectedShapeIndex demoState (Some 3) = None
   \<and> selectedShownShapeIndex_get demoState = Some 1
   \<and> (1::int) < int (length (shownShapes demoState))"
proof -
  let ?s = "demoState\<lparr>selectedShapeIndex := Some (- 1)\<rparr>"
  let ?e = "demoState\<lparr>editingInputIndex := Some 7\<rparr>"
  have a: "formatSelectedShapeIndex ?s (Some (- 1)) = None"
    using selection_read_total [of ?s "- 1"] by simp
  have b: "formatSelectedShapeIndex ?e (Some 7) = None"
    using selection_read_total [of ?e 7] by (simp add: demo_fields)
  have c: "formatSelectedShapeIndex demoState (Some (- 1)) = None"
    using selection_read_total [of demoState "- 1"] by simp
  have d: "formatSelectedShapeIndex demoState (Some 3) = None"
    using selection_read_total [of demoState 3] by (simp add: demo_fields)
  have e: "selectedShownShapeIndex_get demoState = Some 1"
    by (simp add: selectedShownShapeIndex_get_def formatSelectedShapeIndex_def
        demo_fields demo_toShownIndex)
  from a b c d e show ?thesis
    by (simp add: selectedShownShapeIndex_get_def demo_fields demo_shownShapes)
qed


section \<open>The selection write\<close>

text \<open>
  C5. A selection write with a visible index changes nothing at all while the default
  document is shown or an export runs; otherwise it stores \<open>toSvgIndex\<close> of the
  visible index as the hovered index and changes nothing else. A click on a mesh is
  behind the same guard: while it holds, no input is asked to take the focus.
\<close>

theorem selection_write_gated:
  "(isDefaultSvg st \<or> isExporting st \<longrightarrow> selectedShownShapeIndex_set st v = st)
   \<and> (\<not> isDefaultSvg st \<and> \<not> isExporting st \<longrightarrow>
        selectedShownShapeIndex_set st v = st\<lparr>selectedShapeIndex := Some (toSvgIndex st v)\<rparr>)
   \<and> (isDefaultSvg st \<or> isExporting st \<longrightarrow> handleMeshClick st inputRefs v = None)"
  by (simp add: selectedShownShapeIndex_set_def handleMeshClick_def)

theorem selection_write_gated_witness:
  "selectedShownShapeIndex_set (demoState\<lparr>isDefaultSvg := True\<rparr>) 1
     = demoState\<lparr>isDefaultSvg := True\<rparr>
   \<and> selectedShownShapeIndex_set (demoState\<lparr>isExporting := True\<rparr>) 1
     = demoState\<lparr>isExporting := True\<rparr>
   \<and> selectedShownShapeIndex_set (demoState\<lparr>selectedShapeIndex := None\<rparr>) 1
     = demoState
   \<and> selectedShapeIndex (selectedShownShapeIndex_set demoState 2) = Some (- 1)
   \<and> handleMeshClick (demoState\<lparr>isExporting := True\<rparr>) [True, True, True] 1 = None"
proof -
  let ?n = "demoState\<lparr>selectedShapeIndex := None\<rparr>"
  have n: "toSvgIndex ?n 1 = 2"
    by (simp add: toSvgIndex_def shownShapes_def findIndex_def at_index_def
        demo_fields demoHeap_def)
  have "selectedShownShapeIndex_set ?n 1 = demoState"
    using selection_write_gated [of ?n 1] n by (simp add: demoState_def)
  moreover have "selectedShapeIndex (selectedShownShapeIndex_set demoState 2) = Some (- 1)"
    using selection_write_gated [of demoState 2] by (simp add: demo_fields demo_toSvgIndex)
  moreover have "selectedShownShapeIndex_set (demoState\<lparr>isDefaultSvg := True\<rparr>) 1
     = demoState\<lparr>isDefaultSvg := True\<rparr>"
    using selection_write_gated [of "demoState\<lparr>isDefaultSvg := True\<rparr>" 1] by simp
  moreover have "selectedShownShapeIndex_set (demoState\<lparr>isExporting := True\<rparr>) 1
     = demoState\<lparr>isExporting := True\<rparr>"
    using selection_write_gated [of "demoState\<lparr>isExporting := True\<rparr>" 1] by simp
  moreover have "handleMeshClick (demoState\<lparr>isExporting := True\<rparr>) [True, True, True] 1 = None"
    using selection_write_gated [of "demoState\<lparr>isExporting := True\<rparr>" 1 "[True, True, True]"]
    by simp
  ultimately show ?thesis by simp
qed


section \<open>The two index mappings\<close>

text \<open>
  C1. The mappings between positions in the full list and positions in the list of
  shown shapes are inverse to each other. For a full index \<open>f\<close> whose shape has depth
  \<open>> 0\<close>, \<open>toSvgIndex (toShownIndex f) = f\<close>; for a visible index \<open>v\<close> inside the list
  of shown shapes, \<open>toShownIndex (toSvgIndex v) = v\<close>. Both searches compare object
  identities, so the statement is about a shape list whose rows are different
  objects, one per outline, as the data model has it.
\<close>

theorem index_round_trip:
  assumes "distinct (svgShapes st)"
  shows "(at_index (svgShapes st) f = Some r \<and> positive (depth (heap st r)) \<longrightarrow>
            toSvgIndex st (toShownIndex st f) = f)
         \<and> (0 \<le> v \<and> v < int (length (shownShapes st)) \<longrightarrow>
            toShownIndex st (toSvgIndex st v) = v)"
proof (intro conjI impI)
  assume a: "at_index (svgShapes st) f = Some r \<and> positive (depth (heap st r))"
  then have "at_index (svgShapes st) f = Some r" ..
  from at_index_Some [OF this] obtain n where
    n: "n < length (svgShapes st)" "f = int n" "svgShapes st ! n = r"
    by blast
  from a n have "r \<in> set (shownShapes st)"
    by (auto simp: shownShapes_def truthy_positive)
  from findIndex_member [OF this] obtain m where
    m: "m < length (shownShapes st)" "findIndex (\<lambda>s. s = r) (shownShapes st) = int m"
       "shownShapes st ! m = r"
    by blast
  from a m(2) have "toShownIndex st f = int m"
    by (simp add: toShownIndex_def)
  moreover have "toSvgIndex st (int m) = int n"
    using findIndex_distinct [OF assms n(1)] m(1,3) n(3)
    by (simp add: toSvgIndex_def at_index_nat)
  ultimately show "toSvgIndex st (toShownIndex st f) = f"
    using n(2) by simp
next
  assume v: "0 \<le> v \<and> v < int (length (shownShapes st))"
  define m where "m = nat v"
  from v have m: "m < length (shownShapes st)" "v = int m"
    by (auto simp: m_def)
  define r where "r = shownShapes st ! m"
  from m(1) have "r \<in> set (shownShapes st)"
    by (simp add: r_def)
  then have "r \<in> set (svgShapes st)"
    by (simp add: shownShapes_def)
  from findIndex_member [OF this] obtain n where
    n: "n < length (svgShapes st)" "findIndex (\<lambda>s. s = r) (svgShapes st) = int n"
       "svgShapes st ! n = r"
    by blast
  from m n(2) have "toSvgIndex st v = int n"
    by (simp add: toSvgIndex_def at_index_nat r_def)
  moreover have "toShownIndex st (int n) = int m"
    using findIndex_distinct [OF distinct_shownShapes [OF assms] m(1)] n(1,3)
    by (simp add: toShownIndex_def at_index_nat r_def)
  ultimately show "toShownIndex st (toSvgIndex st v) = v"
    using m(2) by simp
qed

theorem index_round_trip_witness:
  "distinct (svgShapes demoState)
   \<and> at_index (svgShapes demoState) 2 = Some 12 \<and> positive (depth (heap demoState 12))
   \<and> toSvgIndex demoState (toShownIndex demoState 2) = 2
   \<and> (1::int) < int (length (shownShapes demoState))
   \<and> toShownIndex demoState (toSvgIndex demoState 1) = 1"
proof -
  have d: "distinct (svgShapes demoState)"
    by (simp add: demo_fields)
  have a: "at_index (svgShapes demoState) 2 = Some 12 \<and> positive (depth (heap demoState 12))"
    by (simp add: at_index_def demo_fields demoHeap_def)
  have b: "(1::int) < int (length (shownShapes demoState))"
    by (simp add: demo_shownShapes)
  from index_round_trip [OF d, of 2 12 1] a b d show ?thesis
    by simp
qed

text \<open>
  C6. A shape with depth \<open>0\<close> has no visible index: \<open>toShownIndex\<close> gives \<open>-1\<close>,
  which \<open>formatSelectedShapeIndex\<close> reports as no selection, and the shape is not
  among the shown shapes. The shown shapes are a subsequence of the full list, in its
  order; with depths in their domain (none negative) they are exactly the shapes of
  depth \<open>> 0\<close>.
\<close>

theorem hidden_shape_not_shown:
  "(at_index (svgShapes st) f = Some r \<and> depth (heap st r) = Num 0 \<longrightarrow>
      toShownIndex st f = - 1 \<and> formatSelectedShapeIndex st (Some f) = None
      \<and> r \<notin> set (shownShapes st))
   \<and> subseq (shownShapes st) (svgShapes st)
   \<and> ((\<forall>r \<in> set (svgShapes st). \<not> negative (depth (heap st r))) \<longrightarrow>
        shownShapes st = filter (\<lambda>r. positive (depth (heap st r))) (svgShapes st))"
proof (intro conjI impI)
  assume a: "at_index (svgShapes st) f = Some r \<and> depth (heap st r) = Num 0"
  then show notin: "r \<notin> set (shownShapes st)"
    by (simp add: shownShapes_def)
  with a show m1: "toShownIndex st f = - 1"
    by (auto simp: toShownIndex_def findIndex_none)
  then show "formatSelectedShapeIndex st (Some f) = None"
    by (simp add: formatSelectedShapeIndex_def)
next
  show "subseq (shownShapes st) (svgShapes st)"
    by (simp add: shownShapes_def)
next
  assume "\<forall>r \<in> set (svgShapes st). \<not> negative (depth (heap st r))"
  then show "shownShapes st = filter (\<lambda>r. positive (depth (heap st r))) (svgShapes st)"
    unfolding shownShapes_def
    by (intro filter_cong) (simp_all add: truthy_iff_positive)
qed

theorem hidden_shape_not_shown_witness:
  "at_index (svgShapes demoState) 1 = Some 11 \<and> depth (heap demoState 11) = Num 0
   \<and> toShownIndex demoState 1 = - 1 \<and> formatSelectedShapeIndex demoState (Some 1) = None
   \<and> 11 \<notin> set (shownShapes demoState)
   \<and> shownShapes demoState = [10, 12]
   \<and> filter (\<lambda>r. positive (depth (heap demoState r))) (svgShapes demoState) = [10, 12]"
proof -
  have a: "at_index (svgShapes demoState) 1 = Some 11 \<and> depth (heap demoState 11) = Num 0"
    by (simp add: at_index_def demo_fields demoHeap_def)
  have b: "\<forall>r \<in> set (svgShapes demoState). \<not> negative (depth (heap demoState r))"
    by (simp add: demo_fields demoHeap_def)
  from hidden_shape_not_shown [of demoState 1 11] a b show ?thesis
    by (simp add: demo_shownShapes)
qed


section \<open>Loading a document\<close>

text \<open>
  C3. Loading a document: \<open>mountSVG\<close>, with its deferred callback, replaces the whole
  shape list by the loader's result (the old list plays no part), clears the
  default-document flag and sets the scale target to its default \<open>37\<close>; it leaves the
  hovered index, the editing index and the export flag as they were. Closing the
  document (\<open>handleClose\<close>) is what empties the list, resets both indices to none,
  clears the export flag and resets the scale target.
\<close>

theorem load_keeps_selection:
  "svgShapes (mountSVG_nextTick (mountSVG L st svgData cb))
       = snd (L svgData defaultDepth 0 cb (heap st))
   \<and> heap (mountSVG_nextTick (mountSVG L st svgData cb))
       = fst (L svgData defaultDepth 0 cb (heap st))
   \<and> \<not> isDefaultSvg (mountSVG_nextTick (mountSVG L st svgData cb))
   \<and> size (mountSVG_nextTick (mountSVG L st svgData cb)) = defaultSize
   \<and> selectedShapeIndex (mountSVG_nextTick (mountSVG L st svgData cb)) = selectedShapeIndex st
   \<and> editingInputIndex (mountSVG_nextTick (mountSVG L st svgData cb)) = editingInputIndex st
   \<and> isExporting (mountSVG_nextTick (mountSVG L st svgData cb)) = isExporting st
   \<and> svgShapes (handleClose st) = []
   \<and> selectedShapeIndex (handleClose st) = None
   \<and> editingInputIndex (handleClose st) = None
   \<and> \<not> isExporting (handleClose st)
   \<and> size (handleClose st) = defaultSize"
  by (simp add: mountSVG_def mountSVG_nextTick_def handleClose_def split: prod.splits)

theorem load_keeps_selection_witness:
  "svgShapes (mountSVG_nextTick (mountSVG oneShapeLoader busyState ''<svg/>'' None)) = [20]
   \<and> size (mountSVG_nextTick (mountSVG oneShapeLoader busyState ''<svg/>'' None)) = 37
   \<and> selectedShapeIndex (mountSVG_nextTick (mountSVG oneShapeLoader busyState ''<svg/>'' None))
       = Some 2
   \<and> selectedShapeIndex (handleClose busyState) = None"
  using load_keeps_selection [of oneShapeLoader busyState "''<svg/>''" None]
  by (simp add: oneShapeLoader_def busyState_def defaultSize_def)

text \<open>
  Loading does not reset the selection. A document loaded while the third row is
  hovered leaves that index set; a document loaded while an input is being edited and
  an export runs leaves the hovered index, the editing index and the export flag set.
\<close>

theorem load_resets_selection_counterexample:
  "selectedShapeIndex (mountSVG_nextTick (mountSVG oneShapeLoader demoState ''<svg/>'' None))
       \<noteq> None
   \<and> \<not> (selectedShapeIndex (mountSVG_nextTick (mountSVG oneShapeLoader busyState ''<svg/>'' None))
          = None
        \<and> editingInputIndex (mountSVG_nextTick (mountSVG oneShapeLoader busyState ''<svg/>'' None))
          = None
        \<and> \<not> isExporting (mountSVG_nextTick (mountSVG oneShapeLoader busyState ''<svg/>'' None)))"
  by (simp add: mountSVG_def mountSVG_nextTick_def oneShapeLoader_def busyState_def
      demoState_def)


section \<open>Clamping of depth and start offset\<close>

lemma onStep_clamp:
  assumes "onStep (1 / 10) lo" "onStep (1 / 10) hi" "onStep (1 / 10) x"
  shows "onStep (1 / 10) (clampToRange lo hi x)"
  using assms by (auto simp: clampToRange_def max_def min_def)

lemma onStep_bounds: "onStep (1 / 10) 0" "onStep (1 / 10) 10" "onStep (1 / 10) (- 10)"
  by (simp_all add: onStep_def)

lemma onStep_snapToStep: "onStep (1 / 10) (snapToStep (1 / 10) x)"
  by (simp add: onStep_def snapToStep_def)

lemma snapToStep_on_grid:
  assumes "onStep (1 / 10) x"
  shows "snapToStep (1 / 10) x = x"
proof -
  from assms have "of_int \<lfloor>x / (1 / 10)\<rfloor> = x / (1 / 10)"
    unfolding onStep_def .
  then obtain n :: int where n: "x / (1 / 10) = of_int n" by metis
  have "round (x / (1 / 10)) = n"
    unfolding n by (rule round_of_int)
  with n have "snapToStep (1 / 10) x = x / (1 / 10) * (1 / 10)"
    by (simp only: snapToStep_def)
  then show ?thesis by simp
qed

lemma snapToStep_near: "\<bar>snapToStep (1 / 10) x - x\<bar> \<le> 1 / 20"
proof -
  have "\<bar>of_int (round (x * 10)) - x * 10\<bar> \<le> 1 / 2"
    by (rule of_int_round_abs_le)
  then have "of_int (round (x * 10)) - x * 10 \<le> 1 / 2"
    and "x * 10 - of_int (round (x * 10)) \<le> 1 / 2"
    unfolding abs_le_iff by simp_all
  then have "of_int (round (x * 10)) / 10 - x \<le> 1 / 20"
    and "x - of_int (round (x * 10)) / 10 \<le> 1 / 20"
    by linarith+
  then show ?thesis
    unfolding abs_le_iff by (simp add: snapToStep_def)
qed

lemma clampToRange_near:
  "\<bar>a - b\<bar> \<le> e \<Longrightarrow> \<bar>clampToRange lo hi a - clampToRange lo hi b\<bar> \<le> e"
  by (auto simp: clampToRange_def max_def min_def abs_le_iff)

lemma clampToRange_bounds:
  "lo \<le> hi \<Longrightarrow> lo \<le> clampToRange lo hi x \<and> clampToRange lo hi x \<le> hi"
  by (simp add: clampToRange_def)

lemma clamp_snap:
  assumes "onStep (1 / 10) lo" "onStep (1 / 10) hi" "lo \<le> hi"
  shows "lo \<le> clampToRange lo hi (snapToStep (1 / 10) x)
         \<and> clampToRange lo hi (snapToStep (1 / 10) x) \<le> hi
         \<and> onStep (1 / 10) (clampToRange lo hi (snapToStep (1 / 10) x))
         \<and> \<bar>clampToRange lo hi (snapToStep (1 / 10) x) - max lo (min hi x)\<bar> \<le> 1 / 20
         \<and> (onStep (1 / 10) x \<longrightarrow>
              clampToRange lo hi (snapToStep (1 / 10) x) = max lo (min hi x))"
proof (intro conjI impI)
  show "lo \<le> clampToRange lo hi (snapToStep (1 / 10) x)"
    using clampToRange_bounds [OF assms(3)] by blast
  show "clampToRange lo hi (snapToStep (1 / 10) x) \<le> hi"
    using clampToRange_bounds [OF assms(3)] by blast
  show "onStep (1 / 10) (clampToRange lo hi (snapToStep (1 / 10) x))"
    using assms(1,2) onStep_snapToStep by (rule onStep_clamp)
  show "\<bar>clampToRange lo hi (snapToStep (1 / 10) x) - max lo (min hi x)\<bar> \<le> 1 / 20"
    using clampToRange_near [OF snapToStep_near, of lo hi x]
    by (simp add: clampToRange_def)
next
  assume "onStep (1 / 10) x"
  then show "clampToRange lo hi (snapToStep (1 / 10) x) = max lo (min hi x)"
    by (simp add: snapToStep_on_grid clampToRange_def)
qed

text \<open>
  C2. For a row \<open>f\<close> of the list and any value \<open>x\<close>, setting the depth stores a value
  in \<open>[0, 10]\<close> that lies on the \<open>0.1\<close> grid, and setting the start offset stores a
  value in \<open>[-10, 10]\<close> that lies on the \<open>0.1\<close> grid. The stored value is within half
  a step of \<open>x\<close> clamped to the range, and it is \<open>x\<close> clamped to the range when \<open>x\<close>
  is on the grid. Depth \<open>-5\<close> is stored as \<open>0\<close>, depth \<open>99\<close> as \<open>10\<close>, start offset
  \<open>-99\<close> as \<open>-10\<close>.
\<close>

theorem set_depth_clamps:
  "(at_index (svgShapes st) f = Some r \<longrightarrow>
      (\<exists>d. depth (heap (setDepth st f x) r) = Num d \<and> 0 \<le> d \<and> d \<le> 10
           \<and> onStep (1 / 10) d \<and> \<bar>d - max 0 (min 10 x)\<bar> \<le> 1 / 20
           \<and> (onStep (1 / 10) x \<longrightarrow> d = max 0 (min 10 x)))
      \<and> (\<exists>z. startZ (heap (setStartZ st f x) r) = Num z \<and> - 10 \<le> z \<and> z \<le> 10
           \<and> onStep (1 / 10) z \<and> \<bar>z - max (- 10) (min 10 x)\<bar> \<le> 1 / 20
           \<and> (onStep (1 / 10) x \<longrightarrow> z = max (- 10) (min 10 x)))
      \<and> depth (heap (setDepth st f (- 5)) r) = Num 0
      \<and> depth (heap (setDepth st f 99) r) = Num 10
      \<and> startZ (heap (setStartZ st f (- 99)) r) = Num (- 10))"
proof (intro impI)
  assume a: "at_index (svgShapes st) f = Some r"
  have d: "depth (heap (setDepth st f y) r) = Num (clampToRange 0 10 (snapToStep (1 / 10) y))"
    for y
    using a by (simp add: setDepth_def)
  have z: "startZ (heap (setStartZ st f y) r)
      = Num (clampToRange (- 10) 10 (snapToStep (1 / 10) y))" for y
    using a by (simp add: setStartZ_def)
  have 1: "\<exists>d. Num (clampToRange 0 10 (snapToStep (1 / 10) x)) = Num d \<and> 0 \<le> d \<and> d \<le> 10
           \<and> onStep (1 / 10) d \<and> \<bar>d - max 0 (min 10 x)\<bar> \<le> 1 / 20
           \<and> (onStep (1 / 10) x \<longrightarrow> d = max 0 (min 10 x))"
    using clamp_snap [OF onStep_bounds(1) onStep_bounds(2), of x] by simp
  have 2: "\<exists>z. Num (clampToRange (- 10) 10 (snapToStep (1 / 10) x)) = Num z
           \<and> - 10 \<le> z \<and> z \<le> 10
           \<and> onStep (1 / 10) z \<and> \<bar>z - max (- 10) (min 10 x)\<bar> \<le> 1 / 20
           \<and> (onStep (1 / 10) x \<longrightarrow> z = max (- 10) (min 10 x))"
    using clamp_snap [OF onStep_bounds(3) onStep_bounds(2), of x] by simp
  have 3: "clampToRange 0 10 (snapToStep (1 / 10) (- 5)) = 0"
    "clampToRange 0 10 (snapToStep (1 / 10) 99) = 10"
    "clampToRange (- 10) 10 (snapToStep (1 / 10) (- 99)) = - 10"
    by (simp_all add: clampToRange_def snapToStep_def)
  show "(\<exists>d. depth (heap (setDepth st f x) r) = Num d \<and> 0 \<le> d \<and> d \<le> 10
           \<and> onStep (1 / 10) d \<and> \<bar>d - max 0 (min 10 x)\<bar> \<le> 1 / 20
           \<and> (onStep (1 / 10) x \<longrightarrow> d = max 0 (min 10 x)))
      \<and> (\<exists>z. startZ (heap (setStartZ st f x) r) = Num z \<and> - 10 \<le> z \<and> z \<le> 10
           \<and> onStep (1 / 10) z \<and> \<bar>z - max (- 10) (min 10 x)\<bar> \<le> 1 / 20
           \<and> (onStep (1 / 10) x \<longrightarrow> z = max (- 10) (min 10 x)))
      \<and> depth (heap (setDepth st f (- 5)) r) = Num 0
      \<and> depth (heap (setDepth st f 99) r) = Num 10
      \<and> startZ (heap (setStartZ st f (- 99)) r) = Num (- 10)"
    unfolding d z 3 using 1 2 by (intro conjI) simp_all
qed

lemma demo_setDepth_off_grid:
  "depth (heap (setDepth demoState 0 (333 / 1000)) 10) = Num (3 / 10)"
  "startZ (heap (setStartZ demoState 0 (- 26 / 100)) 10) = Num (- 3 / 10)"
  by (simp_all add: setDepth_def setStartZ_def at_index_def demo_fields clampToRange_def
      snapToStep_def round_def)

theorem set_depth_clamps_witness:
  "at_index (svgShapes demoState) 0 = Some 10
   \<and> depth (heap (setDepth demoState 0 (- 5)) 10) = Num 0
   \<and> depth (heap (setDepth demoState 0 99) 10) = Num 10
   \<and> startZ (heap (setStartZ demoState 0 (- 99)) 10) = Num (- 10)
   \<and> onStep (1 / 10) (37 / 10)
   \<and> depth (heap (setDepth demoState 0 (37 / 10)) 10) = Num (37 / 10)
   \<and> depth (heap (setDepth demoState 0 (333 / 1000)) 10) = Num (3 / 10)
   \<and> onStep (1 / 10) (3 / 10)"
proof -
  have a: "at_index (svgShapes demoState) 0 = Some 10"
    by (simp add: at_index_def demo_fields)
  have s: "onStep (1 / 10) (37 / 10)"
    by (simp add: onStep_def)
  from set_depth_clamps [of demoState 0 10 "37 / 10"] a s
  have on: "depth (heap (setDepth demoState 0 (37 / 10)) 10) = Num (37 / 10)
      \<and> depth (heap (setDepth demoState 0 (- 5)) 10) = Num 0
      \<and> depth (heap (setDepth demoState 0 99) 10) = Num 10
      \<and> startZ (heap (setStartZ demoState 0 (- 99)) 10) = Num (- 10)"
    by auto
  from set_depth_clamps [of demoState 0 10 "333 / 1000"] a
  obtain d where d: "depth (heap (setDepth demoState 0 (333 / 1000)) 10) = Num d"
    "onStep (1 / 10) d"
    by blast
  from d(1) demo_setDepth_off_grid(1) have "d = 3 / 10"
    by simp
  with d(2) have off: "onStep (1 / 10) (3 / 10)"
    by simp
  from a s on off demo_setDepth_off_grid(1) show ?thesis
    by blast
qed


section \<open>The bore\<close>

text \<open>
  C9. For every solid and every evaluator, \<open>subtractCylinder\<close> returns, unchanged,
  what the evaluator gives for the subtraction of two operands whose world matrices
  have been updated: the brush of the solid, and the brush of a cylinder of radius
  \<open>2.5\<close> (top and bottom), height \<open>100\<close> and \<open>32\<close> radial segments. The cylinder brush
  is at the origin and does not depend on the solid.
\<close>

theorem subtract_cylinder_operands:
  "subtractCylinder evaluate g =
     evaluate
       \<lparr>geometry = BufferGeometry g, position = (0, 0, 0), matrixWorldUpdated = True\<rparr>
       \<lparr>geometry = CylinderGeometry (5 / 2) (5 / 2) 100 32, position = (0, 0, 0),
          matrixWorldUpdated = True\<rparr>
       SUBTRACTION"
  by (simp add: subtractCylinder_def Brush_def updateMatrixWorld_def Let_def)

theorem subtract_cylinder_operands_witness:
  "subtractCylinder recordCall (7::nat) =
     (\<lparr>geometry = BufferGeometry 7, position = (0, 0, 0), matrixWorldUpdated = True\<rparr>,
      \<lparr>geometry = CylinderGeometry (5 / 2) (5 / 2) 100 32, position = (0, 0, 0),
         matrixWorldUpdated = True\<rparr>,
      SUBTRACTION)"
  using subtract_cylinder_operands [of recordCall "7::nat"]
  by (simp add: recordCall_def)


section \<open>Facts about strings\<close>

lemma occursAt_Cons_Suc: "occursAt needle (c # cs) (Suc i) = occursAt needle cs i"
  by (simp add: occursAt_def)

lemma occursAt_0: "occursAt needle s 0 = prefix needle s"
  by (simp add: occursAt_def)

lemma firstAt_0: "firstAt needle s 0 = prefix needle s"
  by (simp add: firstAt_def occursAt_0)

lemma Ball_upt: "(\<forall>k \<in> set [0..<n]. Q k) = (\<forall>k < n. Q k)"
  by auto

lemma firstAt_Cons_Suc:
  "firstAt needle (c # cs) (Suc i) = (\<not> prefix needle (c # cs) \<and> firstAt needle cs i)"
  unfolding firstAt_def Ball_upt All_less_Suc2 occursAt_Cons_Suc occursAt_0
  by auto

lemma firstAt_unique:
  assumes "firstAt needle s i" and "firstAt needle s j"
  shows "i = j"
proof (rule ccontr)
  assume "i \<noteq> j"
  then consider "i < j" | "j < i"
    by (auto simp: neq_iff)
  then show False
    using assms unfolding firstAt_def Ball_upt by cases blast+
qed

lemma occursAt_firstAt:
  assumes "occursAt needle s i"
  shows "\<exists>j \<le> i. firstAt needle s j"
proof -
  define j where "j = (LEAST k. occursAt needle s k)"
  have "occursAt needle s j"
    unfolding j_def using assms by (rule LeastI)
  moreover have "j \<le> i"
    unfolding j_def using assms by (rule Least_le)
  moreover have "\<not> occursAt needle s k" if "k < j" for k
    using that not_less_Least unfolding j_def by blast
  ultimately show ?thesis
    by (auto simp: firstAt_def)
qed

lemma indexOfFrom_firstAt:
  "firstAt needle s i \<Longrightarrow> indexOfFrom needle s k = k + int i"
proof (induction s arbitrary: i k)
  case Nil
  then show ?case by (simp add: firstAt_def occursAt_def)
next
  case (Cons c cs)
  show ?case
  proof (cases i)
    case 0
    with Cons.prems show ?thesis by (simp add: firstAt_0)
  next
    case (Suc i')
    with Cons.prems have "\<not> prefix needle (c # cs)" "firstAt needle cs i'"
      by (simp_all add: firstAt_Cons_Suc)
    with Cons.IH [of i' "k + 1"] Suc show ?thesis by simp
  qed
qed

lemma indexOfFrom_none:
  "(\<forall>i. \<not> occursAt needle s i) \<Longrightarrow> indexOfFrom needle s k = - 1"
proof (induction s arbitrary: k)
  case Nil
  from Nil [rule_format, of 0] show ?case by (simp add: occursAt_def)
next
  case (Cons c cs)
  from Cons.prems [rule_format, of 0] have "\<not> prefix needle (c # cs)"
    by (simp add: occursAt_0)
  moreover have "\<forall>i. \<not> occursAt needle cs i"
    using Cons.prems [rule_format, of "Suc i" for i] by (simp add: occursAt_Cons_Suc)
  ultimately show ?case using Cons.IH by simp
qed

lemma indexOf_found: "firstAt needle s i \<Longrightarrow> indexOf s needle = int i"
  using indexOfFrom_firstAt [of needle s i 0] by (simp add: indexOf_def)

lemma indexOf_eq_minus1: "indexOf s needle = - 1 \<longleftrightarrow> (\<forall>i. \<not> occursAt needle s i)"
proof
  assume m: "indexOf s needle = - 1"
  show "\<forall>i. \<not> occursAt needle s i"
  proof (intro allI notI)
    fix i
    assume "occursAt needle s i"
    from occursAt_firstAt [OF this] obtain j where "firstAt needle s j" by blast
    from indexOf_found [OF this] m show False by simp
  qed
next
  assume "\<forall>i. \<not> occursAt needle s i"
  then show "indexOf s needle = - 1"
    by (simp add: indexOf_def indexOfFrom_none)
qed

lemma indexOf_lt_iff:
  "(indexOf s a \<noteq> - 1 \<and> indexOf s b \<noteq> - 1 \<and> indexOf s a < indexOf s b)
     = (\<exists>i j. firstAt a s i \<and> firstAt b s j \<and> i < j)"
proof
  assume l: "indexOf s a \<noteq> - 1 \<and> indexOf s b \<noteq> - 1 \<and> indexOf s a < indexOf s b"
  from l have "\<exists>i. occursAt a s i"
    by (simp add: indexOf_eq_minus1)
  then obtain i' where "occursAt a s i'" ..
  from occursAt_firstAt [OF this] obtain i where i: "firstAt a s i" by blast
  from l have "\<exists>j. occursAt b s j"
    by (simp add: indexOf_eq_minus1)
  then obtain j' where "occursAt b s j'" ..
  from occursAt_firstAt [OF this] obtain j where j: "firstAt b s j" by blast
  from l indexOf_found [OF i] indexOf_found [OF j] have "i < j"
    by simp
  with i j show "\<exists>i j. firstAt a s i \<and> firstAt b s j \<and> i < j"
    by blast
next
  assume "\<exists>i j. firstAt a s i \<and> firstAt b s j \<and> i < j"
  then obtain i j where ij: "firstAt a s i" "firstAt b s j" "i < j" by blast
  with indexOf_found [OF ij(1)] indexOf_found [OF ij(2)]
  show "indexOf s a \<noteq> - 1 \<and> indexOf s b \<noteq> - 1 \<and> indexOf s a < indexOf s b"
    by simp
qed

lemma str_includes_sublist: "str_includes s needle = sublist needle s"
  by (induction s) (simp_all add: sublist_Cons_right)

lemma trim_empty: "(trim s = []) = blank s"
proof -
  let ?d = "dropWhile isWhiteSpace s"
  have a: "?d = []" if "\<forall>c \<in> set ?d. isWhiteSpace c"
  proof (rule ccontr)
    assume ne: "?d \<noteq> []"
    then have "\<not> isWhiteSpace (hd ?d)"
      by (rule hd_dropWhile)
    moreover have "hd ?d \<in> set ?d"
      using ne by simp
    ultimately show False using that by blast
  qed
  have "(trim s = []) = (\<forall>c \<in> set ?d. isWhiteSpace c)"
    by (simp add: trim_def dropWhile_eq_Nil_conv)
  also have "\<dots> = (?d = [])"
  proof
    assume "\<forall>c \<in> set ?d. isWhiteSpace c"
    then show "?d = []" by (rule a)
  next
    assume e: "?d = []"
    show "\<forall>c \<in> set ?d. isWhiteSpace c"
      unfolding e by simp
  qed
  also have "\<dots> = blank s"
    by (simp add: dropWhile_eq_Nil_conv blank_def)
  finally show ?thesis .
qed

lemma isWhiteSpace_lowerChar: "isWhiteSpace (lowerChar c) = isWhiteSpace c"
  by (simp add: isWhiteSpace_def lowerChar_def)

lemma blank_toLowerCase: "blank (toLowerCase s) = blank s"
  by (simp add: blank_def toLowerCase_def isWhiteSpace_lowerChar)

lemma blank_Nil: "blank []"
  by (simp add: blank_def)

lemma isValidSvg_lower:
  "isValidSvg code =
     (\<not> blank (toLowerCase code)
      \<and> indexOf (toLowerCase code) ''<svg'' \<noteq> - 1
      \<and> indexOf (toLowerCase code) ''</svg>'' \<noteq> - 1
      \<and> indexOf (toLowerCase code) ''<svg'' < indexOf (toLowerCase code) ''</svg>''
      \<and> (str_includes (toLowerCase code) ''viewbox'' \<or> str_includes (toLowerCase code) ''width''
          \<or> str_includes (toLowerCase code) ''height''))"
proof (cases "blank code")
  case True
  then show ?thesis
    by (simp add: isValidSvg_def trim_empty blank_toLowerCase)
next
  case False
  then have "code \<noteq> []"
    using blank_Nil by blast
  with False show ?thesis
    by (simp add: isValidSvg_def trim_empty blank_toLowerCase Let_def)
qed

lemma isValidSvg_case_insensitive:
  "toLowerCase a = toLowerCase b \<Longrightarrow> isValidSvg a = isValidSvg b"
  by (simp add: isValidSvg_lower)


section \<open>Accepting pasted text\<close>

text \<open>
  C7. \<open>isValidSvg\<close> rejects an empty text and a text of white space only. For any
  other text it accepts exactly when, in the lower-cased text, the first \<open><svg\<close> lies
  strictly before the first \<open></svg>\<close> and one of \<open>viewbox\<close>, \<open>width\<close>, \<open>height\<close>
  occurs; so a text with none of the three names is rejected, and two texts that
  differ only in the case of their letters are judged alike. The empty text is
  rejected, \<open><svg viewBox='0 0 10 10'></svg>\<close> is accepted,
  \<open><svg></svg><notclosed\<close> and \<open><svg></svg>\<close> are rejected.
\<close>

theorem isValidSvg_spec:
  "(blank code \<longrightarrow> \<not> isValidSvg code)
   \<and> (\<not> blank code \<longrightarrow>
        isValidSvg code =
          ((\<exists>i j. firstAt ''<svg'' (toLowerCase code) i
                \<and> firstAt ''</svg>'' (toLowerCase code) j \<and> i < j)
           \<and> (sublist ''viewbox'' (toLowerCase code) \<or> sublist ''width'' (toLowerCase code)
                \<or> sublist ''height'' (toLowerCase code))))
   \<and> (\<not> sublist ''viewbox'' (toLowerCase code) \<and> \<not> sublist ''width'' (toLowerCase code)
        \<and> \<not> sublist ''height'' (toLowerCase code) \<longrightarrow> \<not> isValidSvg code)
   \<and> (toLowerCase code = toLowerCase code' \<longrightarrow> isValidSvg code = isValidSvg code')
   \<and> \<not> isValidSvg []
   \<and> isValidSvg ''<svg viewBox='0 0 10 10'></svg>''
   \<and> \<not> isValidSvg ''<svg></svg><notclosed''
   \<and> \<not> isValidSvg ''<svg></svg>''"
proof (intro conjI impI)
  assume "blank code"
  then show "\<not> isValidSvg code"
    by (simp add: isValidSvg_def trim_empty)
next
  assume "\<not> blank code"
  then have ne: "code \<noteq> []" "trim code \<noteq> []"
    by (auto simp: trim_empty blank_def)
  show "isValidSvg code =
          ((\<exists>i j. firstAt ''<svg'' (toLowerCase code) i
                \<and> firstAt ''</svg>'' (toLowerCase code) j \<and> i < j)
           \<and> (sublist ''viewbox'' (toLowerCase code) \<or> sublist ''width'' (toLowerCase code)
                \<or> sublist ''height'' (toLowerCase code)))"
    unfolding indexOf_lt_iff [symmetric]
    using ne by (simp add: isValidSvg_def Let_def str_includes_sublist)
next
  assume "\<not> sublist ''viewbox'' (toLowerCase code) \<and> \<not> sublist ''width'' (toLowerCase code)
        \<and> \<not> sublist ''height'' (toLowerCase code)"
  then show "\<not> isValidSvg code"
    by (simp add: isValidSvg_def Let_def str_includes_sublist)
next
  assume "toLowerCase code = toLowerCase code'"
  then show "isValidSvg code = isValidSvg code'"
    by (rule isValidSvg_case_insensitive)
next
  show "\<not> isValidSvg []"
    by (simp add: isValidSvg_def)
next
  show "isValidSvg ''<svg viewBox='0 0 10 10'></svg>''"
    by (simp add: isValidSvg_def trim_def isWhiteSpace_def toLowerCase_def lowerChar_def
        indexOf_def)
next
  show "\<not> isValidSvg ''<svg></svg><notclosed''"
    by (simp add: isValidSvg_def trim_def isWhiteSpace_def toLowerCase_def lowerChar_def
        indexOf_def)
next
  show "\<not> isValidSvg ''<svg></svg>''"
    by (simp add: isValidSvg_def trim_def isWhiteSpace_def toLowerCase_def lowerChar_def
        indexOf_def)
qed

theorem isValidSvg_spec_witness:
  "\<not> blank ''<SVG Width='4'></SVG>''
   \<and> isValidSvg ''<SVG Width='4'></SVG>''
   \<and> (\<exists>i j. firstAt ''<svg'' (toLowerCase ''<SVG Width='4'></SVG>'') i
          \<and> firstAt ''</svg>'' (toLowerCase ''<SVG Width='4'></SVG>'') j \<and> i < j)
   \<and> blank '' '' \<and> \<not> isValidSvg '' ''"
proof -
  have a: "\<not> blank ''<SVG Width='4'></SVG>''"
    by (simp add: blank_def isWhiteSpace_def)
  have b: "isValidSvg ''<SVG Width='4'></SVG>''"
    by (simp add: isValidSvg_def trim_def isWhiteSpace_def toLowerCase_def lowerChar_def
        indexOf_def)
  have c: "blank '' ''"
    by (simp add: blank_def isWhiteSpace_def)
  note eq = isValidSvg_spec [THEN conjunct2, THEN conjunct1, THEN mp, OF a]
  from iffD1 [OF eq b]
  have d: "\<exists>i j. firstAt ''<svg'' (toLowerCase ''<SVG Width='4'></SVG>'') i
          \<and> firstAt ''</svg>'' (toLowerCase ''<SVG Width='4'></SVG>'') j \<and> i < j"
    by (rule conjunct1)
  note e = isValidSvg_spec [THEN conjunct1, THEN mp, OF c]
  show ?thesis
    by (intro conjI a b c d e)
qed


section \<open>Facts about the pattern match\<close>

lemma captureBeforeLast_Some:
  "captureBeforeLast tag s = Some p \<Longrightarrow> \<exists>post. s = p @ tag @ post"
proof (induction s arbitrary: p)
  case Nil
  then show ?case by (simp split: if_splits)
next
  case (Cons c cs)
  show ?case
  proof (cases "captureBeforeLast tag cs")
    case None
    with Cons.prems have "prefix tag (c # cs)" "p = []"
      by (simp_all split: if_splits)
    then show ?thesis by (auto simp: prefix_def)
  next
    case (Some rest)
    with Cons.prems have p: "p = c # rest" by simp
    from Cons.IH [OF Some] obtain post where "cs = rest @ tag @ post" ..
    with p show ?thesis by simp
  qed
qed

lemma captureBeforeLast_None:
  "captureBeforeLast tag s = None \<Longrightarrow> \<not> sublist tag s"
proof (induction s)
  case Nil
  then show ?case by (simp split: if_splits)
next
  case (Cons c cs)
  from Cons.prems have "captureBeforeLast tag cs = None" "\<not> prefix tag (c # cs)"
    by (simp_all split: option.splits if_splits)
  with Cons.IH show ?case by (simp add: sublist_Cons_right)
qed

lemma matchHere_Some:
  assumes "matchHere s = Some content"
  shows "\<exists>attrs post. s = ''<svg'' @ attrs @ ''>'' @ content @ ''</svg>'' @ post
           \<and> CHR ''>'' \<notin> set attrs"
proof -
  let ?t = "drop 4 s"
  let ?attrs = "takeWhile (\<lambda>c. c \<noteq> CHR ''>'') ?t"
  from assms have pre: "prefix ''<svg'' s"
    by (simp add: matchHere_def split: if_splits)
  then have s: "s = ''<svg'' @ ?t"
    by (auto simp: prefix_def)
  from assms pre obtain x rest where
    d: "dropWhile (\<lambda>c. c \<noteq> CHR ''>'') ?t = x # rest"
    and c: "captureBeforeLast ''</svg>'' rest = Some content"
    by (auto simp: matchHere_def split: list.splits)
  from d have "dropWhile (\<lambda>c. c \<noteq> CHR ''>'') ?t \<noteq> []"
    by simp
  then have "\<not> (hd (dropWhile (\<lambda>c. c \<noteq> CHR ''>'') ?t) \<noteq> CHR ''>'')"
    by (rule hd_dropWhile)
  with d have x: "x = CHR ''>''" by simp
  have "?t = ?attrs @ dropWhile (\<lambda>c. c \<noteq> CHR ''>'') ?t"
    by simp
  with d x have t: "?t = ?attrs @ ''>'' @ rest" by simp
  from captureBeforeLast_Some [OF c] obtain post where
    rest: "rest = content @ ''</svg>'' @ post" ..
  have no: "CHR ''>'' \<notin> set ?attrs"
    using set_takeWhileD by fastforce
  from s t rest have "s = ''<svg'' @ ?attrs @ ''>'' @ content @ ''</svg>'' @ post"
    by (metis append_assoc)
  with no show ?thesis by blast
qed

lemma matchHere_complete:
  assumes "CHR ''>'' \<notin> set attrs"
  shows "matchHere (''<svg'' @ attrs @ ''>'' @ content @ ''</svg>'' @ post) \<noteq> None"
proof -
  have d: "dropWhile (\<lambda>c. c \<noteq> CHR ''>'') (attrs @ ''>'' @ content @ ''</svg>'' @ post)
      = ''>'' @ content @ ''</svg>'' @ post"
    using assms by (subst dropWhile_append2) auto
  have "sublist ''</svg>'' (content @ ''</svg>'' @ post)"
    by (rule sublist_appendI)
  then have "captureBeforeLast ''</svg>'' (content @ ''</svg>'' @ post) \<noteq> None"
    using captureBeforeLast_None by blast
  with d show ?thesis
    by (simp add: matchHere_def)
qed

lemma matchSvgContent_Some:
  "matchSvgContent svg = Some content \<Longrightarrow>
     \<exists>pre attrs post. svg = pre @ ''<svg'' @ attrs @ ''>'' @ content @ ''</svg>'' @ post
        \<and> CHR ''>'' \<notin> set attrs"
proof (induction svg)
  case Nil
  then show ?case by simp
next
  case (Cons c cs)
  show ?case
  proof (cases "matchHere (c # cs)")
    case (Some m)
    with Cons.prems have "matchHere (c # cs) = Some content" by simp
    from matchHere_Some [OF this] obtain attrs post where
      "c # cs = [] @ ''<svg'' @ attrs @ ''>'' @ content @ ''</svg>'' @ post"
      "CHR ''>'' \<notin> set attrs"
      by auto
    then show ?thesis by blast
  next
    case None
    with Cons.prems have "matchSvgContent cs = Some content" by simp
    from Cons.IH [OF this] obtain pre attrs post where
      "cs = pre @ ''<svg'' @ attrs @ ''>'' @ content @ ''</svg>'' @ post"
      "CHR ''>'' \<notin> set attrs"
      by blast
    then have "c # cs = (c # pre) @ ''<svg'' @ attrs @ ''>'' @ content @ ''</svg>'' @ post
        \<and> CHR ''>'' \<notin> set attrs"
      by simp
    then show ?thesis by blast
  qed
qed

lemma matchSvgContent_None:
  "matchSvgContent svg = None \<Longrightarrow> CHR ''>'' \<notin> set attrs \<Longrightarrow>
     svg \<noteq> pre @ ''<svg'' @ attrs @ ''>'' @ content @ ''</svg>'' @ post"
proof (induction svg arbitrary: pre)
  case Nil
  then show ?case by simp
next
  case (Cons c cs)
  from Cons.prems(1) have h: "matchHere (c # cs) = None" and t: "matchSvgContent cs = None"
    by (simp_all split: option.splits)
  show ?case
  proof (cases pre)
    case Nil
    with h matchHere_complete [OF Cons.prems(2), of content post] show ?thesis
      by auto
  next
    case (Cons x pre')
    with Cons.IH [OF t Cons.prems(2), of pre'] show ?thesis
      by simp
  qed
qed


section \<open>The rebuilt document\<close>

lemma digitValue_digit: "d < 10 \<Longrightarrow> digitValue (''0123456789'' ! d) = d"
proof -
  assume "d < 10"
  then have "d \<in> {0, 1, 2, 3, 4, 5, 6, 7, 8, 9}"
    by auto
  then show ?thesis
    by (auto simp: digitValue_def upt_rec)
qed

lemma decimalValue_numberToString: "decimalValue (numberToString n) = n"
proof (induction n rule: numberToString.induct)
  case (1 n)
  show ?case
  proof (cases "n < 10")
    case True
    then show ?thesis
      by (subst numberToString.simps) (simp add: decimalValue_def digitValue_digit)
  next
    case False
    with "1" have ih: "decimalValue (numberToString (n div 10)) = n div 10" by simp
    have "decimalValue (numberToString n)
        = 10 * decimalValue (numberToString (n div 10)) + digitValue (''0123456789'' ! (n mod 10))"
      using False by (subst numberToString.simps) (simp add: decimalValue_def)
    also have "\<dots> = 10 * (n div 10) + n mod 10"
      by (simp only: ih digitValue_digit [of "n mod 10"] mod_less_divisor zero_less_numeral)
    finally show ?thesis by simp
  qed
qed

lemma numberToString_examples:
  "numberToString 8 = ''8''" "numberToString 116 = ''116''" "numberToString 66 = ''66''"
  by simp_all

text \<open>
  C8. For an image of \<open>w\<close> by \<open>h\<close> pixels the rebuilt document has width \<open>w + 16\<close>,
  height \<open>h + 16\<close> and the view box \<open>0 0 (w + 16) (h + 16)\<close>, the numbers written in
  decimal; a white rectangle at
  \<open>(0, 0)\<close> of that size with corner radii \<open>8\<close>; and a group translated by \<open>(8, 8)\<close>
  that holds the traced content. The content is what the pattern captures: text that
  stands in the traced document between an opening \<open><svg ...>\<close> and a closing
  \<open></svg>\<close>; it is empty when the pattern does not match, which is exactly when the
  traced document has no such pair of tags. For a \<open>100\<close> by \<open>50\<close> image the canvas is
  \<open>116\<close> by \<open>66\<close>.
\<close>

theorem rebuilt_document:
  \<open>convertBitmapToSvg w h svg =
     ''<svg width="'' @ numberToString (w + 16) @ ''" height="'' @ numberToString (h + 16)
     @ ''" viewBox="0 0 '' @ numberToString (w + 16) @ '' '' @ numberToString (h + 16)
     @ ''">\<newline>  <rect x="0" y="0" width="'' @ numberToString (w + 16)
     @ ''" height="'' @ numberToString (h + 16)
     @ ''" rx="8" ry="8" fill="white"/>\<newline>  <g transform="translate(8,8)">\<newline>    ''
     @ (case matchSvgContent svg of Some c \<Rightarrow> c | None \<Rightarrow> [])
     @ ''\<newline>  </g>\<newline></svg>''
   \<and> decimalValue (numberToString (w + 16)) = w + 16
   \<and> decimalValue (numberToString (h + 16)) = h + 16
   \<and> (matchSvgContent svg = Some content \<longrightarrow>
        (\<exists>pre attrs post.
            svg = pre @ ''<svg'' @ attrs @ ''>'' @ content @ ''</svg>'' @ post
            \<and> CHR ''>'' \<notin> set attrs))
   \<and> (matchSvgContent svg = None \<longrightarrow>
        \<not> (\<exists>pre attrs inner post.
              svg = pre @ ''<svg'' @ attrs @ ''>'' @ inner @ ''</svg>'' @ post
              \<and> CHR ''>'' \<notin> set attrs))
   \<and> convertBitmapToSvg 100 50 svg =
     ''<svg width="116" height="66" viewBox="0 0 116 66">\<newline>''
     @ ''  <rect x="0" y="0" width="116" height="66" rx="8" ry="8" fill="white"/>\<newline>''
     @ ''  <g transform="translate(8,8)">\<newline>''
     @ ''    '' @ (case matchSvgContent svg of Some c \<Rightarrow> c | None \<Rightarrow> []) @ ''\<newline>''
     @ ''  </g>\<newline>''
     @ ''</svg>''\<close>
proof (intro conjI impI)
  show \<open>convertBitmapToSvg w h svg =
     ''<svg width="'' @ numberToString (w + 16) @ ''" height="'' @ numberToString (h + 16)
     @ ''" viewBox="0 0 '' @ numberToString (w + 16) @ '' '' @ numberToString (h + 16)
     @ ''">\<newline>  <rect x="0" y="0" width="'' @ numberToString (w + 16)
     @ ''" height="'' @ numberToString (h + 16)
     @ ''" rx="8" ry="8" fill="white"/>\<newline>  <g transform="translate(8,8)">\<newline>    ''
     @ (case matchSvgContent svg of Some c \<Rightarrow> c | None \<Rightarrow> [])
     @ ''\<newline>  </g>\<newline></svg>''\<close>
    by (simp add: convertBitmapToSvg_def Let_def numberToString_examples
        del: numberToString.simps)
next
  show "decimalValue (numberToString (w + 16)) = w + 16"
    by (rule decimalValue_numberToString)
next
  show "decimalValue (numberToString (h + 16)) = h + 16"
    by (rule decimalValue_numberToString)
next
  assume "matchSvgContent svg = Some content"
  then show \<open>\<exists>pre attrs post.
            svg = pre @ ''<svg'' @ attrs @ ''>'' @ content @ ''</svg>'' @ post
            \<and> CHR ''>'' \<notin> set attrs\<close>
    by (rule matchSvgContent_Some)
next
  assume "matchSvgContent svg = None"
  then show \<open>\<not> (\<exists>pre attrs inner post.
              svg = pre @ ''<svg'' @ attrs @ ''>'' @ inner @ ''</svg>'' @ post
              \<and> CHR ''>'' \<notin> set attrs)\<close>
    using matchSvgContent_None by blast
next
  show \<open>convertBitmapToSvg 100 50 svg =
     ''<svg width="116" height="66" viewBox="0 0 116 66">\<newline>''
     @ ''  <rect x="0" y="0" width="116" height="66" rx="8" ry="8" fill="white"/>\<newline>''
     @ ''  <g transform="translate(8,8)">\<newline>''
     @ ''    '' @ (case matchSvgContent svg of Some c \<Rightarrow> c | None \<Rightarrow> []) @ ''\<newline>''
     @ ''  </g>\<newline>''
     @ ''</svg>''\<close>
    by (simp add: convertBitmapToSvg_def Let_def numberToString_examples
        del: numberToString.simps)
qed

theorem rebuilt_document_witness:
  \<open>matchSvgContent ''<svg version="1.0"><path d="M0 0z"/></svg>'' = Some ''<path d="M0 0z"/>''
   \<and> convertBitmapToSvg 100 50 ''<svg version="1.0"><path d="M0 0z"/></svg>'' =
     ''<svg width="116" height="66" viewBox="0 0 116 66">\<newline>''
     @ ''  <rect x="0" y="0" width="116" height="66" rx="8" ry="8" fill="white"/>\<newline>''
     @ ''  <g transform="translate(8,8)">\<newline>''
     @ ''    <path d="M0 0z"/>\<newline>''
     @ ''  </g>\<newline>''
     @ ''</svg>''
   \<and> matchSvgContent ''<path d="M0 0z"/>'' = None
   \<and> convertBitmapToSvg 100 50 ''<path d="M0 0z"/>'' =
     ''<svg width="116" height="66" viewBox="0 0 116 66">\<newline>''
     @ ''  <rect x="0" y="0" width="116" height="66" rx="8" ry="8" fill="white"/>\<newline>''
     @ ''  <g transform="translate(8,8)">\<newline>''
     @ ''    \<newline>''
     @ ''  </g>\<newline>''
     @ ''</svg>''\<close>
proof -
  have a: \<open>matchSvgContent ''<svg version="1.0"><path d="M0 0z"/></svg>''
      = Some ''<path d="M0 0z"/>''\<close>
    by (simp add: matchHere_def)
  have b: \<open>matchSvgContent ''<path d="M0 0z"/>'' = None\<close>
    by (simp add: matchHere_def)
  note t1 = rebuilt_document [THEN conjunct2, THEN conjunct2, THEN conjunct2,
      THEN conjunct2, THEN conjunct2, of \<open>''<svg version="1.0"><path d="M0 0z"/></svg>''\<close>]
  note t2 = rebuilt_document [THEN conjunct2, THEN conjunct2, THEN conjunct2,
      THEN conjunct2, THEN conjunct2, of \<open>''<path d="M0 0z"/>''\<close>]
  from t1 t2 show ?thesis
    unfolding a b by simp
qed

end
